theory Spec2Isabelle
  imports Main
begin

section \<open>JavaScript values read by the media gallery\<close>

text \<open>
  The variant resource is typed \<open>any\<close> in the source. It arrives as parsed JSON (an event
  payload, a global, or \<open>JSON.parse\<close> of a data attribute), so a value is one of the JSON
  shapes plus \<open>undefined\<close>. An object is an association list of its own properties.
  Numbers are the integers; strings are lists of 8-bit characters, and the case mapping and
  the whitespace class below are those of the ASCII range.
\<close>

datatype jsval =
    JUndefined
  | JNull
  | JBool bool
  | JNum int
  | JStr string
  | JArr "jsval list"
  | JObj "(string \<times> jsval) list"

text \<open>Truthiness, as tested by \<open>if (x)\<close>, \<open>!x\<close>, \<open>a && b\<close> and \<open>a || b\<close>.\<close>

fun truthy :: "jsval \<Rightarrow> bool" where
  "truthy JUndefined = False"
| "truthy JNull = False"
| "truthy (JBool b) = b"
| "truthy (JNum n) = (n \<noteq> 0)"
| "truthy (JStr s) = (s \<noteq> [])"
| "truthy (JArr xs) = True"
| "truthy (JObj kvs) = True"

text \<open>
  Property read \<open>v.k\<close> / \<open>v[k]\<close> for the property names the source uses
  (\<open>selected_options\<close>, \<open>value\<close>, \<open>option1\<close>..\<open>option3\<close>, \<open>title\<close>, \<open>resource\<close>):
  none of them is defined on a primitive or on an array, so only an object can answer.
  The callers read properties of truthy values only, so the \<open>TypeError\<close> of reading a
  property of \<open>null\<close> or \<open>undefined\<close> is modelled where it can happen (the event handler).
\<close>

fun js_get :: "jsval \<Rightarrow> string \<Rightarrow> jsval" where
  "js_get (JObj kvs) k = (case map_of kvs k of None \<Rightarrow> JUndefined | Some v \<Rightarrow> v)"
| "js_get v k = JUndefined"

subsection \<open>Strings\<close>

text \<open>\<open>Array.prototype.join\<close> on an array of strings.\<close>

fun join :: "string \<Rightarrow> string list \<Rightarrow> string" where
  "join sep [] = []"
| "join sep [x] = x"
| "join sep (x # y # ys) = x @ sep @ join sep (y # ys)"

definition digit_char :: "nat \<Rightarrow> char" where
  "digit_char d = char_of (48 + d)"

fun digits :: "nat \<Rightarrow> string" where
  "digits n = (if n < 10 then [digit_char n] else digits (n div 10) @ [digit_char (n mod 10)])"

definition string_of_int :: "int \<Rightarrow> string" where
  "string_of_int n = (if n < 0 then CHR ''-'' # digits (nat (- n)) else digits (nat n))"

text \<open>\<open>String(v)\<close>. An array prints its elements joined by commas, \<open>null\<close> and
  \<open>undefined\<close> elements as the empty string; a plain object prints as \<open>[object Object]\<close>.\<close>

fun js_String :: "jsval \<Rightarrow> string"
  and js_String_elems :: "jsval list \<Rightarrow> string list" where
  "js_String JUndefined = ''undefined''"
| "js_String JNull = ''null''"
| "js_String (JBool b) = (if b then ''true'' else ''false'')"
| "js_String (JNum n) = string_of_int n"
| "js_String (JStr s) = s"
| "js_String (JArr xs) = join '','' (js_String_elems xs)"
| "js_String (JObj kvs) = ''[object Object]''"
| "js_String_elems [] = []"
| "js_String_elems (x # xs) =
     (case x of JUndefined \<Rightarrow> [] | JNull \<Rightarrow> [] | _ \<Rightarrow> js_String x) # js_String_elems xs"

text \<open>\<open>String.prototype.trim\<close>: strips white space and line terminators at both ends.\<close>

definition is_ws :: "char \<Rightarrow> bool" where
  "is_ws c = (let n = (of_char c :: nat) in (9 \<le> n \<and> n \<le> 13) \<or> n = 32)"

definition trim :: "string \<Rightarrow> string" where
  "trim s = rev (dropWhile is_ws (rev (dropWhile is_ws s)))"

text \<open>\<open>String.prototype.toLowerCase\<close>.\<close>

definition is_upper :: "char \<Rightarrow> bool" where
  "is_upper c = (let n = (of_char c :: nat) in 65 \<le> n \<and> n \<le> 90)"

definition lower_char :: "char \<Rightarrow> char" where
  "lower_char c = (if is_upper c then char_of ((of_char c :: nat) + 32) else c)"

definition toLowerCase :: "string \<Rightarrow> string" where
  "toLowerCase s = map lower_char s"

text \<open>\<open>String.prototype.startsWith\<close> and \<open>String.prototype.includes\<close>: the search
  string occurs at the front, respectively at some position, of the subject.\<close>

fun startsWith :: "string \<Rightarrow> string \<Rightarrow> bool" where
  "startsWith s [] = True"
| "startsWith [] (p # ps) = False"
| "startsWith (c # cs) (p # ps) = (c = p \<and> startsWith cs ps)"

fun js_includes :: "string \<Rightarrow> string \<Rightarrow> bool" where
  "js_includes [] t = (t = [])"
| "js_includes (c # cs) t = (startsWith (c # cs) t \<or> js_includes cs t)"

text \<open>
  \<open>String.prototype.split(sep)\<close>: the subject is cut at each occurrence of the separator,
  scanning from the left; \<open>cur\<close> holds the characters of the current piece, last first.
  An empty separator cuts between every two characters.
\<close>

function split_from :: "string \<Rightarrow> string \<Rightarrow> string \<Rightarrow> string list" where
  "split_from sep cur [] = [rev cur]"
| "split_from sep cur (c # cs) =
     (if startsWith (c # cs) sep
      then rev cur # split_from sep [] (drop (length sep - 1) cs)
      else split_from sep (c # cur) cs)"
  by pat_completeness auto
termination
  by (relation "measure (\<lambda>(sep, cur, s). length s)") auto

definition split :: "string \<Rightarrow> string \<Rightarrow> string list" where
  "split s sep = (if sep = [] then map (\<lambda>c. [c]) s else split_from sep [] s)"

section \<open>VariantValueExtractor\<close>

text \<open>
  \<open>MediaGallery.extractVariantValues\<close>, lines 20 to 46 of both source files (the two files
  agree on it). \<open>pushOpt\<close> is the callback of line 25 and \<open>pushKey\<close> the one of line 30,
  each returning the array \<open>values\<close> after its push; \<open>collectOptions\<close> is \<open>values\<close> after
  line 32, \<open>collectValues\<close> is \<open>values\<close> after the title fallback of lines 33 to 36, and
  \<open>normalise_loop\<close> is the \<open>for\<close> loop of lines 39 to 44 with \<open>out\<close> as its accumulator.
  The elements of \<open>values\<close> are strings already, so the \<open>String(v)\<close> of line 42 is the
  identity and \<open>!v\<close> tests for the empty string.
\<close>

definition pushOpt :: "jsval \<Rightarrow> string list \<Rightarrow> string list" where
  "pushOpt opt values =
     (if truthy opt \<and> truthy (js_get opt ''value'')
      then values @ [js_String (js_get opt ''value'')] else values)"

definition pushKey :: "jsval \<Rightarrow> string \<Rightarrow> string list \<Rightarrow> string list" where
  "pushKey res k values =
     (if truthy (js_get res k) then values @ [js_String (js_get res k)] else values)"

definition collectOptions :: "jsval \<Rightarrow> string list" where
  "collectOptions res =
     (let values = (case js_get res ''selected_options'' of
                      JArr opts \<Rightarrow> foldl (\<lambda>values opt. pushOpt opt values) [] opts
                    | _ \<Rightarrow> [])
      in foldl (\<lambda>values k. pushKey res k values) values
           [''option1'', ''option2'', ''option3''])"

definition collectValues :: "jsval \<Rightarrow> string list" where
  "collectValues res =
     (let values = collectOptions res
      in if length values = 0 \<and> truthy (js_get res ''title'')
         then (case split (js_String (js_get res ''title'')) '' / '' of
                 [] \<Rightarrow> values
               | p # ps \<Rightarrow> values @ [p])
         else values)"

fun normalise_loop :: "string list \<Rightarrow> string list \<Rightarrow> string list" where
  "normalise_loop [] out = out"
| "normalise_loop (v # vs) out =
     (if v = [] then normalise_loop vs out
      else (let s = toLowerCase (trim v)
            in if length s \<noteq> 0 then normalise_loop vs (out @ [s])
               else normalise_loop vs out))"

definition extractVariantValues :: "jsval \<Rightarrow> string list" where
  "extractVariantValues res =
     (if \<not> truthy res then [] else normalise_loop (collectValues res) [])"

section \<open>GalleryFilter\<close>

text \<open>
  What the filter reads and writes of the document. An element (a media container or a
  thumbnail button) has at most one image the filter looks at, the first \<open>img\<close> below it;
  the image has an \<open>alt\<close> attribute or not. \<open>display\<close> is \<open>style.display\<close>, where the empty
  string shows the element and \<open>none\<close> hides it; \<open>aria_selected\<close> is the attribute of
  that name, absent until it is set.
\<close>

datatype image = Img "string option"

record element =
  img :: "image option"
  display :: string
  aria_selected :: "string option"

text \<open>
  The gallery as the filter sees it: the elements of class \<open>product-media-container\<close>
  and the thumbnail buttons, both in document order; the text of the selected-option
  label looked up in the document (absent when no node matches the selector); whether a
  \<open>slideshow-component\<close> is present; and how many times it has been replaced by a clone.
\<close>

record gallery =
  containers :: "element list"
  thumbs :: "element list"
  color_label :: "string option"
  has_slideshow :: bool
  rebinds :: nat

text \<open>\<open>(img.getAttribute('alt') || '').toLowerCase().trim()\<close>\<close>

fun altText :: "image \<Rightarrow> string" where
  "altText (Img a) = trim (toLowerCase (case a of None \<Rightarrow> [] | Some s \<Rightarrow> s))"

subsection \<open>Policy A: the file \<open>src/unnamed/part_000\<close>\<close>

text \<open>The callback of the \<open>forEach\<close> of lines 87 to 113, on one container.\<close>

definition filterContainer_A :: "string list \<Rightarrow> element \<Rightarrow> element" where
  "filterContainer_A variantValues container =
     (case img container of
        None \<Rightarrow> container
      | Some im \<Rightarrow>
          (let alt = altText im;
               variantString = toLowerCase (join '' '' variantValues);
               matches = (js_includes alt variantString
                          \<or> list_ex (\<lambda>val. js_includes alt val) variantValues)
           in if \<not> matches then container\<lparr>display := ''none''\<rparr>
              else container\<lparr>display := []\<rparr>))"

definition filterSlidesByVariant_A :: "jsval \<Rightarrow> gallery \<Rightarrow> gallery" where
  "filterSlidesByVariant_A variantResource g =
     (let variantValues = extractVariantValues variantResource
      in if length variantValues = 0 then g
         else g\<lparr>containers := map (filterContainer_A variantValues) (containers g)\<rparr>)"

subsection \<open>Policy B: the file \<open>src/assets/media-gallery.js\<close>\<close>

text \<open>The callback of the \<open>forEach\<close> of lines 99 to 107, on one container.\<close>

definition filterContainer_B :: "string \<Rightarrow> element \<Rightarrow> element" where
  "filterContainer_B activeColor container =
     (case img container of
        None \<Rightarrow> container
      | Some im \<Rightarrow>
          (let alt = altText im;
               matches = js_includes alt activeColor
           in container\<lparr>display := (if matches then [] else ''none'')\<rparr>))"

text \<open>
  The \<open>forEach\<close> of lines 111 to 116 over the thumbnail buttons, with its running
  \<open>index\<close>. A button without an image has the empty alt text
  (\<open>thumb.querySelector('img')?.getAttribute('alt') || ''\<close>).
\<close>

fun filterThumbs_B :: "string \<Rightarrow> nat \<Rightarrow> element list \<Rightarrow> element list" where
  "filterThumbs_B activeColor index [] = []"
| "filterThumbs_B activeColor index (thumb # rest) =
     (let alt = (case img thumb of None \<Rightarrow> trim (toLowerCase []) | Some im \<Rightarrow> altText im);
          matches = js_includes alt activeColor
      in thumb\<lparr>display := (if matches then [] else ''none''),
               aria_selected := Some (if matches \<and> index = 0 then ''true'' else ''false'')\<rparr>)
     # filterThumbs_B activeColor (Suc index) rest"

text \<open>
  The function passed to \<open>setTimeout\<close> (lines 81 to 128): the filtering pass that runs
  when the timer fires. Replacing the slideshow by its deep clone keeps the inline styles
  just written, so it shows in the model as a count only.
\<close>

definition filterPass_B :: "jsval \<Rightarrow> gallery \<Rightarrow> gallery" where
  "filterPass_B variantResource g =
     (let colorName = (case color_label g of
                         None \<Rightarrow> []
                       | Some textContent \<Rightarrow> toLowerCase (trim textContent));
          variantValues = extractVariantValues variantResource;
          activeColor = (if colorName \<noteq> [] then colorName
                         else (case variantValues of
                                 [] \<Rightarrow> []
                               | v # vs \<Rightarrow> v))
      in if activeColor = [] then g
         else g\<lparr>containers := map (filterContainer_B activeColor) (containers g),
                thumbs := filterThumbs_B activeColor 0 (thumbs g),
                rebinds := (if has_slideshow g then Suc (rebinds g) else rebinds g)\<rparr>)"

section \<open>GalleryElement: the life cycle\<close>

text \<open>
  The two files share the life-cycle code and differ in \<open>filterSlidesByVariant\<close>.
  The component holds the gallery, the state of its \<open>AbortController\<close> (created once, as
  a class field), whether \<open>#handleVariantUpdate\<close> is registered on the ancestor container
  and \<open>#handleZoomMediaSelected\<close> on the zoom dialog, and the timers set by Policy B
  that have not fired yet, oldest first.

  The platform behaviour the source relies on is that of the DOM standard:
  \<open>addEventListener\<close> with an aborted \<open>signal\<close> adds nothing, \<open>abort()\<close> removes the
  listeners added with that signal and is permanent, and an event is delivered to the
  registered listeners only. The base class \<open>Component\<close> and the zoom dialog are outside
  the source given; the model takes \<open>super.connectedCallback()\<close> and
  \<open>super.disconnectedCallback()\<close> to leave the fields below alone.
\<close>

datatype policy = PolicyA | PolicyB

datatype error = TypeError

record component =
  dom :: gallery
  aborted :: bool
  listening :: bool
  zoom_listening :: bool
  timers :: "jsval list"

fun filterSlidesByVariant :: "policy \<Rightarrow> jsval \<Rightarrow> component \<Rightarrow> component" where
  "filterSlidesByVariant PolicyA variantResource c =
     c\<lparr>dom := filterSlidesByVariant_A variantResource (dom c)\<rparr>"
| "filterSlidesByVariant PolicyB variantResource c =
     c\<lparr>timers := timers c @ [variantResource]\<rparr>"

text \<open>The oldest pending timer fires: its callback runs on the gallery as it is then.\<close>

definition timerFires :: "component \<Rightarrow> component" where
  "timerFires c =
     (case timers c of
        [] \<Rightarrow> c
      | r # rs \<Rightarrow> c\<lparr>dom := filterPass_B r (dom c), timers := rs\<rparr>)"

text \<open>
  What \<open>connectedCallback\<close> reads from its surroundings: whether \<open>closest\<close> finds a
  section or dialog ancestor, whether \<open>refs.zoomDialogComponent\<close> is there, the global
  \<open>window.ProductData\<close>, and the data attribute \<open>selectedVariant\<close> (absent or empty,
  not parsable as JSON, or parsed).
\<close>

datatype dataset_variant = Absent | Malformed | Parsed jsval

record env =
  has_ancestor :: bool
  has_zoom_dialog :: bool
  product_data :: jsval
  selected_variant :: dataset_variant

definition connectedCallback :: "policy \<Rightarrow> env \<Rightarrow> component \<Rightarrow> component" where
  "connectedCallback p e c =
     (let c0 = (if has_ancestor e \<and> \<not> aborted c then c\<lparr>listening := True\<rparr> else c);
          c1 = (if has_zoom_dialog e \<and> \<not> aborted c0 then c0\<lparr>zoom_listening := True\<rparr>
                else c0);
          fromGlobal =
            (if truthy (product_data e)
                \<and> truthy (js_get (product_data e) ''selected_or_first_available_variant'')
             then js_get (product_data e) ''selected_or_first_available_variant''
             else JNull);
          variantResource =
            (if \<not> truthy fromGlobal
             then (case selected_variant e of Parsed v \<Rightarrow> v | _ \<Rightarrow> fromGlobal)
             else fromGlobal)
      in if truthy variantResource then filterSlidesByVariant p variantResource c1 else c1)"

definition disconnectedCallback :: "component \<Rightarrow> component" where
  "disconnectedCallback c = c\<lparr>aborted := True, listening := False, zoom_listening := False\<rparr>"

text \<open>
  \<open>#handleVariantUpdate\<close>, given \<open>event.detail\<close>. Reading \<open>resource\<close> of a \<open>detail\<close>
  that is \<open>null\<close> or \<open>undefined\<close> throws.
\<close>

definition handleVariantUpdate :: "policy \<Rightarrow> jsval \<Rightarrow> component \<Rightarrow> error + component" where
  "handleVariantUpdate p detail c =
     (if detail = JUndefined \<or> detail = JNull then Inl TypeError
      else (let resource = (if truthy (js_get detail ''resource'')
                            then js_get detail ''resource'' else JNull)
            in if truthy resource then Inr (filterSlidesByVariant p resource c)
               else Inr c))"

text \<open>A variant-update event dispatched on the ancestor container.\<close>

definition dispatch :: "policy \<Rightarrow> jsval \<Rightarrow> component \<Rightarrow> error + component" where
  "dispatch p detail c = (if listening c then handleVariantUpdate p detail c else Inr c)"

text \<open>
  What can happen to the component, and a run of such events from a given state. A run
  stops at the first error.
\<close>

datatype lifecycle = Connect env | Disconnect | Dispatch jsval | TimerFires

fun is_Dispatch :: "lifecycle \<Rightarrow> bool" where
  "is_Dispatch (Dispatch detail) = True"
| "is_Dispatch ev = False"

fun step :: "policy \<Rightarrow> lifecycle \<Rightarrow> component \<Rightarrow> error + component" where
  "step p (Connect e) c = Inr (connectedCallback p e c)"
| "step p Disconnect c = Inr (disconnectedCallback c)"
| "step p (Dispatch detail) c = dispatch p detail c"
| "step p TimerFires c = Inr (timerFires c)"

fun run :: "policy \<Rightarrow> lifecycle list \<Rightarrow> component \<Rightarrow> error + component" where
  "run p [] c = Inr c"
| "run p (ev # evs) c =
     (case step p ev c of Inl err \<Rightarrow> Inl err | Inr c' \<Rightarrow> run p evs c')"

section \<open>The token list as the specification words it\<close>

text \<open>
  The specification's normalisation: each candidate is trimmed and lowercased, and a
  candidate that becomes empty is dropped. It is compared with the loop of the source
  in \<open>normalise_loop_normalised\<close>.
\<close>

definition normalised :: "string list \<Rightarrow> string list" where
  "normalised vs = filter (\<lambda>s. s \<noteq> []) (map (\<lambda>v. toLowerCase (trim v)) vs)"

section \<open>Concrete resources and galleries\<close>

text \<open>A variant with a selected option, a flat option and a title.\<close>

definition variant_red_large :: jsval where
  "variant_red_large =
     JObj [(''selected_options'', JArr [JObj [(''name'', JStr ''Color''), (''value'', JStr ''Red'')] ]),
           (''option1'', JStr ''Large''),
           (''title'', JStr ''Red / Large'')]"

text \<open>A variant that has a title only.\<close>

definition variant_title_only :: jsval where
  "variant_title_only = JObj [(''title'', JStr ''Blue / Large'')]"

text \<open>A variant whose single token is \<open>red\<close>.\<close>

definition variant_red :: jsval where
  "variant_red = JObj [(''option1'', JStr ''Red'')]"

text \<open>A variant that yields no token: its title is white space.\<close>

definition variant_blank :: jsval where
  "variant_blank = JObj [(''title'', JStr ''   '')]"

text \<open>A variant whose flat options carry padding, a blank and capitals.\<close>

definition variant_padded :: jsval where
  "variant_padded =
     JObj [(''option1'', JStr ''  Navy Blue ''), (''option2'', JStr ''   ''),
           (''option3'', JStr ''XL'')]"

text \<open>A variant whose only flat option is a blank, with a title.\<close>

definition variant_blank_option :: jsval where
  "variant_blank_option = JObj [(''option1'', JStr '' ''), (''title'', JStr ''Blue / Large'')]"

definition shown :: "string option \<Rightarrow> element" where
  "shown a = \<lparr>img = Some (Img a), display = [], aria_selected = None\<rparr>"

definition shown_without_image :: element where
  "shown_without_image = \<lparr>img = None, display = [], aria_selected = None\<rparr>"

text \<open>
  A gallery with two slides, a red shirt and a blue shirt, a third slide without an image,
  and three thumbnails: blue shirt, red shirt, one without an image. Everything is shown,
  and no selected-option label is in the document.
\<close>

definition shirts :: gallery where
  "shirts =
     \<lparr>containers = [shown (Some ''Red Shirt''), shown (Some ''Blue Shirt''), shown_without_image],
      thumbs = [shown (Some ''Blue Shirt''), shown (Some ''Red Shirt''), shown_without_image],
      color_label = None,
      has_slideshow = True,
      rebinds = 0\<rparr>"

text \<open>An attached component under a section, listening, with no timer pending.\<close>

definition attached_shirts :: component where
  "attached_shirts =
     \<lparr>dom = shirts, aborted = False, listening = True, zoom_listening = False, timers = []\<rparr>"

text \<open>The same gallery with the selected-option label \<open>Red\<close> in the document.\<close>

definition labelled_shirts :: gallery where
  "labelled_shirts = shirts\<lparr>color_label := Some ''Red''\<rparr>"

text \<open>A variant-update event carrying the red variant.\<close>

definition update_to_red :: jsval where
  "update_to_red = JObj [(''resource'', variant_red)]"

lemmas example_defs =
  variant_red_large_def variant_title_only_def variant_red_def variant_blank_def
  variant_padded_def shown_def shown_without_image_def shirts_def attached_shirts_def
  labelled_shirts_def update_to_red_def

lemmas string_defs =
  trim_def toLowerCase_def lower_char_def is_upper_def is_ws_def split_def char_of_def bit_0

lemmas extract_defs =
  extractVariantValues_def collectValues_def collectOptions_def pushOpt_def pushKey_def

lemmas filter_defs =
  filterSlidesByVariant_A_def filterContainer_A_def filterPass_B_def filterContainer_B_def

section \<open>Facts about the string operations\<close>

lemma normalise_loop_eq:
  "normalise_loop vs out = out @ normalised vs"
proof (induction vs arbitrary: out)
  case Nil
  show ?case by (simp add: normalised_def)
next
  case (Cons v vs)
  have e: "toLowerCase (trim []) = []" by (simp add: toLowerCase_def trim_def)
  show ?case using Cons.IH e by (simp add: Let_def normalised_def)
qed

lemma startsWith_iff: "startsWith s t \<longleftrightarrow> (\<exists>post. s = t @ post)"
  by (induction s t rule: startsWith.induct) auto

lemma js_includes_iff: "js_includes s t \<longleftrightarrow> (\<exists>pre post. s = pre @ t @ post)"
proof (induction s)
  case Nil
  show ?case by simp
next
  case (Cons c cs)
  show ?case
  proof
    assume "js_includes (c # cs) t"
    then consider "startsWith (c # cs) t" | "js_includes cs t" by auto
    then show "\<exists>pre post. c # cs = pre @ t @ post"
    proof cases
      case 1
      then obtain post where "c # cs = t @ post" using startsWith_iff by blast
      then have "c # cs = [] @ t @ post" by simp
      then show ?thesis by blast
    next
      case 2
      then obtain pre post where "cs = pre @ t @ post" using Cons.IH by blast
      then have "c # cs = (c # pre) @ t @ post" by simp
      then show ?thesis by blast
    qed
  next
    assume "\<exists>pre post. c # cs = pre @ t @ post"
    then obtain pre post where e: "c # cs = pre @ t @ post" by blast
    show "js_includes (c # cs) t"
    proof (cases pre)
      case Nil
      with e have "startsWith (c # cs) t" using startsWith_iff by auto
      then show ?thesis by simp
    next
      case (Cons a pre')
      with e have "cs = pre' @ t @ post" by simp
      then have "js_includes cs t" using Cons.IH by blast
      then show ?thesis by simp
    qed
  qed
qed

lemma lower_char_not_upper: "\<not> is_upper (lower_char c)"
  by (auto simp: lower_char_def is_upper_def Let_def)

lemma is_ws_lower_char: "is_ws (lower_char c) = is_ws c"
  by (auto simp: lower_char_def is_upper_def is_ws_def Let_def)

lemma toLowerCase_no_upper: "c \<in> set (toLowerCase s) \<Longrightarrow> \<not> is_upper c"
  by (auto simp: toLowerCase_def lower_char_not_upper)

lemma trim_hd: "trim s \<noteq> [] \<Longrightarrow> \<not> is_ws (hd (trim s))"
proof -
  assume ne: "trim s \<noteq> []"
  define w where "w = dropWhile is_ws s"
  have t: "trim s = rev (dropWhile is_ws (rev w))" by (simp add: trim_def w_def)
  with ne have wne: "w \<noteq> []" by auto
  then have hw: "\<not> is_ws (hd w)" unfolding w_def by (simp add: hd_dropWhile)
  from ne t have dne: "dropWhile is_ws (rev w) \<noteq> []" by simp
  have "hd (trim s) = last (dropWhile is_ws (rev w))" using t dne by (simp add: hd_rev)
  also have "\<dots> = last (rev w)" using dne by (metis last_appendR takeWhile_dropWhile_id)
  also have "\<dots> = hd w" using wne by (simp add: last_rev)
  finally show ?thesis using hw by simp
qed

lemma trim_last: "trim s \<noteq> [] \<Longrightarrow> \<not> is_ws (last (trim s))"
proof -
  assume ne: "trim s \<noteq> []"
  then have dne: "dropWhile is_ws (rev (dropWhile is_ws s)) \<noteq> []" by (simp add: trim_def)
  have "last (trim s) = hd (dropWhile is_ws (rev (dropWhile is_ws s)))"
    using dne by (simp add: trim_def last_rev)
  then show ?thesis using dne by (simp add: hd_dropWhile)
qed

lemma trim_idem: "trim (trim s) = trim s"
proof (cases "trim s = []")
  case True
  have "trim [] = []" by (simp add: trim_def)
  with True show ?thesis by simp
next
  case False
  have h: "\<not> is_ws (hd (trim s))" using trim_hd False by blast
  have l: "\<not> is_ws (last (trim s))" using trim_last False by blast
  have a: "dropWhile is_ws (trim s) = trim s" using False h by (cases "trim s") auto
  from False obtain ys y where e: "trim s = ys @ [y]" by (metis rev_exhaust)
  with l have "\<not> is_ws y" by simp
  then have b: "dropWhile is_ws (rev (trim s)) = rev (trim s)" by (simp add: e)
  show ?thesis using a b by (simp add: trim_def[of "trim s"])
qed

lemma startsWith_drop: "startsWith s t \<Longrightarrow> s = t @ drop (length t) s"
  by (auto simp: startsWith_iff)

lemma startsWith_shorter:
  assumes "startsWith (u @ v) t" and "length t \<le> length u"
  shows "startsWith u t"
proof -
  from assms(1) obtain post where e: "u @ v = t @ post" using startsWith_iff by blast
  have "take (length t) (u @ v) = t" using e by simp
  then have "take (length t) u = t" using assms(2) by simp
  then have "u = t @ drop (length t) u" by (metis append_take_drop_id)
  then show ?thesis using startsWith_iff by blast
qed

lemma split_from_not_Nil: "split_from sep cur s \<noteq> []"
  by (induction sep cur s rule: split_from.induct) auto

lemma join_Cons: "r \<noteq> [] \<Longrightarrow> join sep (x # r) = x @ sep @ join sep r"
  by (cases r) auto

lemma join_split_from:
  "sep \<noteq> [] \<Longrightarrow> join sep (split_from sep cur s) = rev cur @ s"
proof (induction sep cur s rule: split_from.induct)
  case (1 sep cur)
  show ?case by simp
next
  case (2 sep cur c cs)
  show ?case
  proof (cases "startsWith (c # cs) sep")
    case True
    have d: "drop (length sep) (c # cs) = drop (length sep - 1) cs"
      using "2.prems" by (cases sep) auto
    have e: "sep @ drop (length sep - 1) cs = c # cs"
      using startsWith_drop[OF True] d by simp
    have j: "join sep (split_from sep [] (drop (length sep - 1) cs))
                   = drop (length sep - 1) cs"
      using "2.IH"(1)[OF True "2.prems"] by simp
    have "split_from sep cur (c # cs)
          = rev cur # split_from sep [] (drop (length sep - 1) cs)"
      using True by simp
    then have "join sep (split_from sep cur (c # cs))
          = rev cur @ sep @ join sep (split_from sep [] (drop (length sep - 1) cs))"
      by (simp only: join_Cons[OF split_from_not_Nil])
    also have "\<dots> = rev cur @ (c # cs)" by (simp only: j e)
    finally show ?thesis .
  next
    case False
    then show ?thesis using "2.IH"(2)[OF False "2.prems"] by simp
  qed
qed

lemma join_split: "sep \<noteq> [] \<Longrightarrow> join sep (split s sep) = s"
  by (simp add: split_def join_split_from)

lemma split_from_none:
  "\<not> js_includes s sep \<Longrightarrow> split_from sep cur s = [rev cur @ s]"
  by (induction sep cur s rule: split_from.induct) auto

lemma split_from_first:
  assumes "sep \<noteq> []" and "\<not> js_includes (a @ butlast sep) sep"
  shows "\<exists>r. split_from sep cur (a @ sep @ b) = (rev cur @ a) # r"
  using assms(2)
proof (induction a arbitrary: cur)
  case Nil
  from assms(1) obtain p ps where sep: "sep = p # ps" by (cases sep) auto
  have "startsWith ((p # ps) @ b) (p # ps)" using startsWith_iff by blast
  then show ?case by (simp add: sep)
next
  case (Cons x a)
  have bl: "sep = butlast sep @ [last sep]" using assms(1) by simp
  have ns: "\<not> startsWith ((x # a) @ butlast sep) sep"
    using Cons.prems by (cases "butlast sep") auto
  have "\<not> startsWith (x # a @ sep @ b) sep"
  proof
    assume "startsWith (x # a @ sep @ b) sep"
    then have "startsWith (((x # a) @ butlast sep) @ (last sep # b)) sep"
      using bl by (metis append.assoc append_Cons append_Nil)
    moreover have "length sep \<le> length ((x # a) @ butlast sep)" by simp
    ultimately show False using ns startsWith_shorter by blast
  qed
  moreover have "\<not> js_includes (a @ butlast sep) sep" using Cons.prems by simp
  ultimately show ?case using Cons.IH[of "x # cur"] by simp
qed

lemma split_nonempty: "split s '' / '' \<noteq> []"
  by (simp add: split_def split_from_not_Nil)

lemma split_first_none:
  "\<not> js_includes s '' / '' \<Longrightarrow> split s '' / '' = [s]"
  by (simp add: split_def split_from_none)

lemma split_first_some:
  assumes "\<not> js_includes (seg @ '' /'') '' / ''"
  shows "hd (split (seg @ '' / '' @ rest) '' / '') = seg"
proof -
  have "\<exists>r. split_from '' / '' [] (seg @ '' / '' @ rest) = (rev [] @ seg) # r"
    by (rule split_from_first) (use assms in simp_all)
  then show ?thesis by (auto simp: split_def)
qed

lemma foldl_pushOpt:
  "foldl (\<lambda>values opt. pushOpt opt values) acc opts =
   acc @ map (\<lambda>opt. js_String (js_get opt ''value''))
           (filter (\<lambda>opt. truthy opt \<and> truthy (js_get opt ''value'')) opts)"
  by (induction opts arbitrary: acc) (auto simp: pushOpt_def)

lemma foldl_pushKey:
  "foldl (\<lambda>values k. pushKey res k values) acc ks =
   acc @ map (\<lambda>k. js_String (js_get res k)) (filter (\<lambda>k. truthy (js_get res k)) ks)"
  by (induction ks arbitrary: acc) (auto simp: pushKey_def)

lemma normalise_loop_normalised: "normalise_loop vs [] = normalised vs"
  by (simp add: normalise_loop_eq)

lemma extract_eq_normalised:
  "extractVariantValues res = normalised (if truthy res then collectValues res else [])"
  by (simp add: extractVariantValues_def normalise_loop_normalised normalised_def)

lemma collectOptions_eq:
  "collectOptions res =
     (case js_get res ''selected_options'' of
        JArr opts \<Rightarrow> map (\<lambda>opt. js_String (js_get opt ''value''))
                      (filter (\<lambda>opt. truthy opt \<and> truthy (js_get opt ''value'')) opts)
      | _ \<Rightarrow> [])
     @ map (\<lambda>k. js_String (js_get res k))
         (filter (\<lambda>k. truthy (js_get res k)) [''option1'', ''option2'', ''option3''])"
  unfolding collectOptions_def Let_def foldl_pushKey
  by (simp add: foldl_pushOpt split: jsval.splits)

lemma collectOptions_empty_iff:
  "collectOptions res = [] \<longleftrightarrow>
     (\<forall>opts. js_get res ''selected_options'' = JArr opts \<longrightarrow>
        (\<forall>opt \<in> set opts. \<not> (truthy opt \<and> truthy (js_get opt ''value''))))
     \<and> \<not> truthy (js_get res ''option1'')
     \<and> \<not> truthy (js_get res ''option2'')
     \<and> \<not> truthy (js_get res ''option3'')"
  by (auto simp: collectOptions_eq filter_empty_conv split: jsval.splits)

lemma normalised_append: "normalised (xs @ ys) = normalised xs @ normalised ys"
  by (simp add: normalised_def)

lemma normalised_token:
  assumes "t \<in> set (normalised vs)"
  shows "t \<noteq> [] \<and> (\<forall>c \<in> set t. \<not> is_upper c) \<and> \<not> is_ws (hd t) \<and> \<not> is_ws (last t)"
proof -
  from assms obtain v where t: "t = toLowerCase (trim v)" and ne: "t \<noteq> []"
    by (auto simp: normalised_def)
  have tne: "trim v \<noteq> []" using t ne by (auto simp: toLowerCase_def)
  have "hd t = lower_char (hd (trim v))" using t tne by (simp add: toLowerCase_def hd_map)
  then have h: "\<not> is_ws (hd t)" using trim_hd[OF tne] by (simp add: is_ws_lower_char)
  have "last t = lower_char (last (trim v))" using t tne by (simp add: toLowerCase_def last_map)
  then have l: "\<not> is_ws (last t)" using trim_last[OF tne] by (simp add: is_ws_lower_char)
  have "\<forall>c \<in> set t. \<not> is_upper c" using t toLowerCase_no_upper by blast
  with ne h l show ?thesis by simp
qed

lemma toLowerCase_id: "(\<forall>c \<in> set t. \<not> is_upper c) \<Longrightarrow> toLowerCase t = t"
  by (induction t) (auto simp: toLowerCase_def lower_char_def)

lemma toLowerCase_append: "toLowerCase (xs @ ys) = toLowerCase xs @ toLowerCase ys"
  by (simp add: toLowerCase_def)

lemma toLowerCase_join:
  "toLowerCase (join sep xs) = join (toLowerCase sep) (map toLowerCase xs)"
  by (induction sep xs rule: join.induct) (simp_all add: toLowerCase_append, simp add: toLowerCase_def)

lemma variantString_tokens:
  "toLowerCase (join '' '' (extractVariantValues res)) = join '' '' (extractVariantValues res)"
proof -
  have "\<forall>t \<in> set (extractVariantValues res). toLowerCase t = t"
    using normalised_token toLowerCase_id unfolding extract_eq_normalised by blast
  then have "map toLowerCase (extractVariantValues res) = extractVariantValues res"
    by (simp add: map_idI)
  moreover have "toLowerCase '' '' = '' ''" by (simp add: string_defs)
  ultimately show ?thesis by (simp add: toLowerCase_join)
qed

section \<open>The claims about the extractor\<close>

text \<open>
  Claim C1, as the specification states it: for a resource with at least one selected
  option carrying a truthy value, the extractor returns exactly those values, trimmed and
  lowercased, and no token from \<open>option1\<close>, \<open>option2\<close>, \<open>option3\<close> or the title.
  The source pushes the flat options after the selected options whatever the latter
  gave, so the statement fails on a variant that has both: the token of \<open>option1\<close> is in
  the result.
\<close>

theorem extract_selected_options_counterexample:
  "extractVariantValues variant_red_large \<noteq> [''red'']
   \<and> ''large'' \<in> set (extractVariantValues variant_red_large)"
  by (simp add: example_defs extract_defs string_defs)

text \<open>
  Claim C1, amended: for a resource with at least one selected option carrying a truthy
  value, the extractor returns those values in order, trimmed and lowercased, the ones
  that trim to nothing dropped, followed by the truthy values of \<open>option1\<close>, \<open>option2\<close>
  and \<open>option3\<close> treated the same way; the title gives no token.
\<close>

theorem extract_selected_then_options:
  assumes "truthy res"
    and "js_get res ''selected_options'' = JArr opts"
    and "\<exists>opt \<in> set opts. truthy opt \<and> truthy (js_get opt ''value'')"
  shows "extractVariantValues res =
           normalised (map (\<lambda>opt. js_String (js_get opt ''value''))
                         (filter (\<lambda>opt. truthy opt \<and> truthy (js_get opt ''value'')) opts))
           @ normalised (map (\<lambda>k. js_String (js_get res k))
                           (filter (\<lambda>k. truthy (js_get res k))
                              [''option1'', ''option2'', ''option3'']))"
proof -
  have "filter (\<lambda>opt. truthy opt \<and> truthy (js_get opt ''value'')) opts \<noteq> []"
    using assms(3) by (simp add: filter_empty_conv)
  then have "collectOptions res \<noteq> []"
    by (simp add: collectOptions_eq assms(2))
  then have "collectValues res = collectOptions res"
    by (simp add: collectValues_def)
  then show ?thesis
    using assms(1) by (simp add: extract_eq_normalised collectOptions_eq assms(2) normalised_append)
qed

theorem extract_selected_then_options_witness:
  "truthy variant_red_large \<and> extractVariantValues variant_red_large = [''red'', ''large'']"
proof -
  have t: "truthy variant_red_large" by (simp add: example_defs)
  have s: "js_get variant_red_large ''selected_options''
           = JArr [JObj [(''name'', JStr ''Color''), (''value'', JStr ''Red'')] ]"
    by (simp add: example_defs)
  have e: "\<exists>opt \<in> set [JObj [(''name'', JStr ''Color''), (''value'', JStr ''Red'')] ].
             truthy opt \<and> truthy (js_get opt ''value'')"
    by simp
  show ?thesis
    using t extract_selected_then_options [OF t s e]
    by (simp add: example_defs normalised_def string_defs)
qed

text \<open>
  Claim C5, as the specification states it: when the selected options and
  \<open>option1\<close>..\<open>option3\<close> yield no token and the resource has a title, the extractor
  returns the first piece of the title as its token. The title fallback of line 33 tests
  whether any candidate was collected, not whether any token will come of the
  candidates. A variant whose \<open>option1\<close> is a single space has a truthy candidate that
  normalises to nothing: the options yield no token, the title is there, and still the
  extractor returns the empty list and not \<open>blue\<close>.
\<close>

theorem extract_title_fallback_counterexample:
  "normalised (collectOptions variant_blank_option) = []
   \<and> truthy (js_get variant_blank_option ''title'')
   \<and> js_String (js_get variant_blank_option ''title'') = ''Blue / Large''
   \<and> extractVariantValues variant_blank_option = []
   \<and> extractVariantValues variant_blank_option \<noteq> [''blue'']"
  by (simp add: variant_blank_option_def extract_defs normalised_def string_defs)

text \<open>
  Claim C5, amended: when the selected options and \<open>option1\<close>..\<open>option3\<close> give no truthy
  candidate (\<open>values\<close> is empty at line 33) and the resource has a title, the extractor
  cuts the title at the separator \<open>" / "\<close> and takes the first piece as its only
  candidate. The first piece is the whole title when the separator does not occur in
  it, and otherwise the part before the first occurrence, that is, the \<open>seg\<close> with the
  title being \<open>seg\<close>, the separator, and a rest, no occurrence of the separator
  starting inside \<open>seg\<close>. The result is that candidate normalised: a title
  \<open>Blue / Large\<close> alone gives \<open>blue\<close>.
\<close>

theorem extract_title_fallback:
  assumes "truthy res"
    and "collectOptions res = []"
    and "truthy (js_get res ''title'')"
  shows "(\<not> js_includes (js_String (js_get res ''title'')) '' / ''
            \<longrightarrow> extractVariantValues res = normalised [js_String (js_get res ''title'')])
         \<and> (\<forall>seg rest. js_String (js_get res ''title'') = seg @ '' / '' @ rest
                \<and> \<not> js_includes (seg @ '' /'') '' / ''
            \<longrightarrow> extractVariantValues res = normalised [seg])"
proof -
  have c: "collectValues res = [hd (split (js_String (js_get res ''title'')) '' / '')]"
    using assms(2,3) split_nonempty[of "js_String (js_get res ''title'')"]
    by (simp add: collectValues_def split: list.splits)
  have e: "extractVariantValues res
           = normalised [hd (split (js_String (js_get res ''title'')) '' / '')]"
    using assms(1) c by (simp add: extract_eq_normalised)
  show ?thesis
  proof (intro conjI allI impI)
    assume "\<not> js_includes (js_String (js_get res ''title'')) '' / ''"
    then show "extractVariantValues res = normalised [js_String (js_get res ''title'')]"
      using e by (simp add: split_first_none)
  next
    fix seg rest
    assume "js_String (js_get res ''title'') = seg @ '' / '' @ rest
            \<and> \<not> js_includes (seg @ '' /'') '' / ''"
    then have "hd (split (js_String (js_get res ''title'')) '' / '') = seg"
      using split_first_some[of seg rest] by metis
    then show "extractVariantValues res = normalised [seg]"
      using e by simp
  qed
qed

theorem extract_title_fallback_witness:
  "truthy variant_title_only \<and> collectOptions variant_title_only = []
   \<and> truthy (js_get variant_title_only ''title'')
   \<and> extractVariantValues variant_title_only = [''blue'']"
proof -
  have t: "truthy variant_title_only" by (simp add: example_defs)
  have c: "collectOptions variant_title_only = []"
    by (simp add: example_defs extract_defs)
  have g: "truthy (js_get variant_title_only ''title'')" by (simp add: example_defs)
  have s: "js_String (js_get variant_title_only ''title'') = ''Blue'' @ '' / '' @ ''Large''
           \<and> \<not> js_includes (''Blue'' @ '' /'') '' / ''"
    by (simp add: example_defs)
  have "extractVariantValues variant_title_only = normalised [''Blue'']"
    using extract_title_fallback [OF t c g] s by blast
  then show ?thesis using t c g by (simp add: normalised_def string_defs)
qed

text \<open>
  Claim C6: every token the extractor returns is non-empty, has no capital letter, and
  neither starts nor ends with white space; the result is the list of candidates, each
  trimmed and lowercased, without those that became empty.
\<close>

theorem extract_tokens_normal:
  "(\<forall>t \<in> set (extractVariantValues res).
      t \<noteq> [] \<and> (\<forall>c \<in> set t. \<not> is_upper c) \<and> \<not> is_ws (hd t) \<and> \<not> is_ws (last t))
   \<and> extractVariantValues res
       = filter (\<lambda>s. s \<noteq> [])
           (map (\<lambda>v. toLowerCase (trim v)) (if truthy res then collectValues res else []))"
proof (rule conjI)
  show "\<forall>t \<in> set (extractVariantValues res).
      t \<noteq> [] \<and> (\<forall>c \<in> set t. \<not> is_upper c) \<and> \<not> is_ws (hd t) \<and> \<not> is_ws (last t)"
    unfolding extract_eq_normalised by (rule ballI) (rule normalised_token)
  show "extractVariantValues res
       = filter (\<lambda>s. s \<noteq> [])
           (map (\<lambda>v. toLowerCase (trim v)) (if truthy res then collectValues res else []))"
    unfolding extract_eq_normalised by (simp only: normalised_def)
qed

theorem extract_tokens_normal_witness:
  "collectValues variant_padded = [''  Navy Blue '', ''   '', ''XL'']
   \<and> extractVariantValues variant_padded = [''navy blue'', ''xl'']
   \<and> ''navy blue'' \<noteq> [] \<and> \<not> is_upper CHR ''n'' \<and> \<not> is_ws (hd ''navy blue'')
   \<and> \<not> is_ws (last ''navy blue'')"
proof -
  have c: "collectValues variant_padded = [''  Navy Blue '', ''   '', ''XL'']"
    by (simp add: example_defs extract_defs)
  have e: "extractVariantValues variant_padded = [''navy blue'', ''xl'']"
    by (simp add: example_defs extract_defs string_defs)
  have m: "''navy blue'' \<in> set (extractVariantValues variant_padded)" by (simp add: e)
  have "\<forall>t \<in> set (extractVariantValues variant_padded).
      t \<noteq> [] \<and> (\<forall>c \<in> set t. \<not> is_upper c) \<and> \<not> is_ws (hd t) \<and> \<not> is_ws (last t)"
    using extract_tokens_normal [of variant_padded] by (rule conjunct1)
  then have "''navy blue'' \<noteq> [] \<and> (\<forall>c \<in> set ''navy blue''. \<not> is_upper c)
        \<and> \<not> is_ws (hd ''navy blue'') \<and> \<not> is_ws (last ''navy blue'')"
    using m by (rule bspec)
  then show ?thesis using c e by simp
qed

section \<open>Facts about the filter\<close>

lemma filterContainer_A_display:
  assumes "img container = Some im"
  shows "display (filterContainer_A (extractVariantValues res) container) =
           (if (\<exists>tok \<in> set (join '' '' (extractVariantValues res) # extractVariantValues res).
                  \<exists>pre post. altText im = pre @ tok @ post)
            then [] else ''none'')"
  using assms
  by (simp add: filterContainer_A_def Let_def variantString_tokens list_ex_iff js_includes_iff)

lemma filterContainer_A_idem:
  "filterContainer_A vs (filterContainer_A vs container) = filterContainer_A vs container"
  by (simp add: filterContainer_A_def Let_def split: option.splits)

lemma filterContainer_A_without_image:
  "img container = None \<Longrightarrow> filterContainer_A vs container = container"
  by (simp add: filterContainer_A_def)

lemma filterContainer_B_without_image:
  "img container = None \<Longrightarrow> filterContainer_B activeColor container = container"
  by (simp add: filterContainer_B_def)

lemma filterThumbs_B_length: "length (filterThumbs_B activeColor index ts) = length ts"
  by (induction ts arbitrary: index) (simp_all add: Let_def)

lemma filterThumbs_B_selected:
  "i < length ts \<Longrightarrow>
   aria_selected (filterThumbs_B activeColor index ts ! i) =
     Some (if js_includes (case img (ts ! i) of None \<Rightarrow> trim (toLowerCase []) | Some im \<Rightarrow> altText im)
                activeColor \<and> index + i = 0
           then ''true'' else ''false'')"
proof (induction ts arbitrary: index i)
  case Nil
  then show ?case by simp
next
  case (Cons t ts)
  show ?case
  proof (cases i)
    case 0
    then show ?thesis by (simp add: Let_def)
  next
    case (Suc j)
    then have "j < length ts" using Cons.prems by simp
    then show ?thesis using Cons.IH[of j "Suc index"] Suc by simp
  qed
qed

section \<open>The claims about the filter\<close>

text \<open>
  Claim C4: under Policy A, with at least one token, a container that has an image is
  shown when its normalised alt text contains, as a contiguous piece, the tokens joined
  by spaces or one of the tokens, and is hidden otherwise. The alt text is lowercased
  and the tokens are lowercase, so the comparison ignores the case of the alt text.
  With the alt texts \<open>Red Shirt\<close> and \<open>Blue Shirt\<close> and the token \<open>red\<close> the first
  container is shown and the second hidden.
\<close>

theorem policyA_shows_exactly_the_matching:
  assumes "extractVariantValues res \<noteq> []"
    and "i < length (containers g)"
    and "img (containers g ! i) = Some im"
  shows "display (containers (filterSlidesByVariant_A res g) ! i) =
           (if (\<exists>tok \<in> set (join '' '' (extractVariantValues res) # extractVariantValues res).
                  \<exists>pre post. altText im = pre @ tok @ post)
            then [] else ''none'')"
proof -
  have "containers (filterSlidesByVariant_A res g) ! i
        = filterContainer_A (extractVariantValues res) (containers g ! i)"
    using assms(1,2) by (simp add: filterSlidesByVariant_A_def Let_def)
  then show ?thesis using filterContainer_A_display[OF assms(3)] by simp
qed

theorem policyA_shows_exactly_the_matching_witness:
  "extractVariantValues variant_red = [''red'']
   \<and> map display (containers shirts) = [ [], [], [] ]
   \<and> display (containers (filterSlidesByVariant_A variant_red shirts) ! 0) = []
   \<and> display (containers (filterSlidesByVariant_A variant_red shirts) ! 1) = ''none''"
proof -
  have e: "extractVariantValues variant_red = [''red'']"
    by (simp add: example_defs extract_defs string_defs)
  then have ne: "extractVariantValues variant_red \<noteq> []" by simp
  have d: "map display (containers shirts) = [ [], [], [] ]" by (simp add: example_defs)
  have "js_includes (altText (Img (Some ''Red Shirt''))) ''red''"
    by (simp add: string_defs)
  then have a0: "\<exists>pre post. altText (Img (Some ''Red Shirt'')) = pre @ ''red'' @ post"
    by (simp only: js_includes_iff)
  have a1: "altText (Img (Some ''Blue Shirt'')) = ''blue shirt''"
    by (simp add: string_defs)
  have n1: "\<not> js_includes ''blue shirt'' ''red'' \<and> \<not> js_includes ''blue shirt'' (join '' '' [''red''])"
    by simp
  have m0: "\<exists>tok \<in> set (join '' '' (extractVariantValues variant_red) # extractVariantValues variant_red).
              \<exists>pre post. altText (Img (Some ''Red Shirt'')) = pre @ tok @ post"
    unfolding e using a0 by (intro bexI[of _ "''red''"]) simp_all
  have m1: "\<not> (\<exists>tok \<in> set (join '' '' (extractVariantValues variant_red) # extractVariantValues variant_red).
              \<exists>pre post. altText (Img (Some ''Blue Shirt'')) = pre @ tok @ post)"
    unfolding e a1 using n1 by (simp add: js_includes_iff)
  have "display (containers (filterSlidesByVariant_A variant_red shirts) ! 0) = []"
    using policyA_shows_exactly_the_matching [OF ne, of 0 shirts "Img (Some ''Red Shirt'')"] m0
    by (simp add: example_defs)
  moreover have "display (containers (filterSlidesByVariant_A variant_red shirts) ! 1) = ''none''"
    using policyA_shows_exactly_the_matching [OF ne, of 1 shirts "Img (Some ''Blue Shirt'')"] m1
    by (simp add: example_defs)
  ultimately show ?thesis using e d by simp
qed

text \<open>
  Claim C10: Policy A's filter is idempotent. Whatever the resource and the gallery,
  filtering the filtered gallery again changes nothing: a pass sets each display from
  the alt text and the tokens, never from the display it finds.
\<close>

theorem policyA_idempotent:
  "filterSlidesByVariant_A res (filterSlidesByVariant_A res g) = filterSlidesByVariant_A res g"
  by (simp add: filterSlidesByVariant_A_def Let_def filterContainer_A_idem)

theorem policyA_idempotent_witness:
  "map display (containers (filterSlidesByVariant_A variant_red shirts)) = [ [], ''none'', [] ]
   \<and> map display (containers (filterSlidesByVariant_A variant_red
                                 (filterSlidesByVariant_A variant_red shirts)))
       = [ [], ''none'', [] ]"
proof -
  have "map display (containers (filterSlidesByVariant_A variant_red shirts)) = [ [], ''none'', [] ]"
    by (simp add: example_defs extract_defs string_defs filter_defs)
  then show ?thesis using policyA_idempotent [of variant_red shirts] by simp
qed

text \<open>
  Claim C8: a resource that yields no token makes Policy A's filter a no-op; under
  Policy B the filtering pass is a no-op when, besides, the selected-option label is
  absent from the document or blank, so that no colour can be derived from either.
  Nothing of the gallery changes, and the slideshow is not replaced.
\<close>

theorem no_token_no_op:
  assumes "extractVariantValues res = []"
  shows "filterSlidesByVariant_A res g = g
         \<and> ((case color_label g of None \<Rightarrow> [] | Some label \<Rightarrow> toLowerCase (trim label)) = []
              \<longrightarrow> filterPass_B res g = g)"
  using assms by (simp add: filterSlidesByVariant_A_def filterPass_B_def Let_def)

theorem no_token_no_op_witness:
  "extractVariantValues variant_blank = []
   \<and> filterSlidesByVariant_A variant_blank shirts = shirts
   \<and> filterPass_B variant_blank (shirts\<lparr>color_label := Some ''  ''\<rparr>)
       = shirts\<lparr>color_label := Some ''  ''\<rparr>"
proof -
  have e: "extractVariantValues variant_blank = []"
    by (simp add: example_defs extract_defs string_defs)
  have l: "(case color_label (shirts\<lparr>color_label := Some ''  ''\<rparr>) of
              None \<Rightarrow> [] | Some label \<Rightarrow> toLowerCase (trim label)) = []"
    by (simp add: string_defs)
  show ?thesis
    using e l no_token_no_op [OF e, of shirts]
      no_token_no_op [OF e, of "shirts\<lparr>color_label := Some ''  ''\<rparr>"]
    by simp
qed

text \<open>
  Claim C7, as the specification states it: for a null or absent resource the extractor
  returns the empty list and \<open>filterSlidesByVariant\<close> changes the visibility of no
  element. Policy B takes the active colour from the selected-option label of the
  document first and from the resource only when the label gives nothing, so with the
  label \<open>Red\<close> in the document the pass it schedules hides the blue shirt, whatever the
  resource.
\<close>

theorem null_resource_policyB_counterexample:
  "extractVariantValues JNull = []
   \<and> display (containers labelled_shirts ! 1) = []
   \<and> display (containers (filterPass_B JNull labelled_shirts) ! 1) = ''none''"
  by (simp add: example_defs extract_defs string_defs filter_defs)

text \<open>
  Claim C7, amended: for a null or absent resource the extractor returns the empty list;
  Policy A's \<open>filterSlidesByVariant\<close> changes nothing; and the pass of Policy B changes
  nothing when the selected-option label is absent from the document or blank.
\<close>

theorem null_resource_no_op:
  assumes "res = JNull \<or> res = JUndefined"
  shows "extractVariantValues res = []
         \<and> filterSlidesByVariant_A res g = g
         \<and> ((case color_label g of None \<Rightarrow> [] | Some label \<Rightarrow> toLowerCase (trim label)) = []
              \<longrightarrow> filterPass_B res g = g)"
proof -
  have e: "extractVariantValues res = []"
    using assms by (auto simp: extractVariantValues_def)
  then show ?thesis
    by (simp add: filterSlidesByVariant_A_def filterPass_B_def Let_def)
qed

theorem null_resource_no_op_witness:
  "extractVariantValues JNull = []
   \<and> filterSlidesByVariant_A JNull labelled_shirts = labelled_shirts
   \<and> color_label shirts = None
   \<and> filterPass_B JNull shirts = shirts"
proof -
  have n: "JNull = JNull \<or> JNull = JUndefined" by simp
  have l: "color_label shirts = None" by (simp add: example_defs)
  then have b: "(case color_label shirts of None \<Rightarrow> [] | Some label \<Rightarrow> toLowerCase (trim label)) = []"
    by simp
  show ?thesis
    using l b null_resource_no_op [OF n, of labelled_shirts] null_resource_no_op [OF n, of shirts]
    by simp
qed

section \<open>The claims about detachment\<close>

lemma filterSlidesByVariant_listeners:
  "aborted (filterSlidesByVariant p r c) = aborted c
   \<and> listening (filterSlidesByVariant p r c) = listening c"
  by (cases p) simp_all

lemma connectedCallback_aborted:
  assumes "aborted c" and "\<not> listening c"
  shows "aborted (connectedCallback p e c) \<and> \<not> listening (connectedCallback p e c)"
  using assms by (simp add: connectedCallback_def Let_def filterSlidesByVariant_listeners)

lemma timerFires_listeners:
  "aborted (timerFires c) = aborted c \<and> listening (timerFires c) = listening c"
  by (simp add: timerFires_def split: list.splits)

lemma step_aborted:
  assumes "aborted c" and "\<not> listening c"
  shows "\<exists>c'. step p ev c = Inr c' \<and> aborted c' \<and> \<not> listening c'
              \<and> (is_Dispatch ev \<longrightarrow> c' = c)"
proof (cases ev)
  case (Connect e)
  then show ?thesis using connectedCallback_aborted[OF assms] by simp
next
  case Disconnect
  then show ?thesis by (simp add: disconnectedCallback_def)
next
  case (Dispatch detail)
  then show ?thesis using assms by (simp add: dispatch_def)
next
  case TimerFires
  then show ?thesis using assms by (simp add: timerFires_listeners)
qed

lemma run_aborted:
  assumes "aborted c" and "\<not> listening c"
  shows "\<exists>c'. run p evs c = Inr c'
              \<and> run p (filter (\<lambda>ev. \<not> is_Dispatch ev) evs) c = Inr c'"
  using assms
proof (induction evs arbitrary: c)
  case Nil
  show ?case by simp
next
  case (Cons ev evs)
  from step_aborted[OF Cons.prems, of p ev] obtain c1 where
    s: "step p ev c = Inr c1" and a: "aborted c1" and l: "\<not> listening c1"
    and d: "is_Dispatch ev \<longrightarrow> c1 = c" by blast
  from Cons.IH[OF a l] obtain c' where
    r: "run p evs c1 = Inr c'"
    and f: "run p (filter (\<lambda>ev. \<not> is_Dispatch ev) evs) c1 = Inr c'" by blast
  show ?case
  proof (cases "is_Dispatch ev")
    case True
    then show ?thesis using s r f d by simp
  next
    case False
    then show ?thesis using s r f by simp
  qed
qed

text \<open>
  Claim C9: once the element is detached, a variant-update event dispatched on the
  former ancestor container never reaches the handler. Take any component state and
  detach it; in every run of events that follows (dispatches, timers firing, even a new
  attachment) each dispatch can be left out without changing the outcome, and the run
  ends without an error. So a dispatch changes no visibility, sets no timer and throws
  nothing, also when its \<open>detail\<close> is \<open>null\<close>, on which the handler would throw.
\<close>

theorem detached_dispatch_never_handled:
  "\<exists>c'. run p evs (disconnectedCallback c) = Inr c'
        \<and> run p (filter (\<lambda>ev. \<not> is_Dispatch ev) evs) (disconnectedCallback c) = Inr c'"
  by (rule run_aborted) (simp_all add: disconnectedCallback_def)

theorem detached_dispatch_never_handled_witness:
  "map display (containers (dom attached_shirts)) = [ [], [], [] ]
   \<and> run PolicyA [Dispatch update_to_red] attached_shirts
       = Inr (attached_shirts\<lparr>dom := filterSlidesByVariant_A variant_red shirts\<rparr>)
   \<and> map display (containers (filterSlidesByVariant_A variant_red shirts)) = [ [], ''none'', [] ]
   \<and> run PolicyA [Dispatch JNull] attached_shirts = Inl TypeError
   \<and> run PolicyA [Dispatch update_to_red, Dispatch JNull] (disconnectedCallback attached_shirts)
       = Inr (disconnectedCallback attached_shirts)"
proof -
  have a: "map display (containers (dom attached_shirts)) = [ [], [], [] ]"
    by (simp add: example_defs)
  have t: "truthy variant_red" by (simp add: example_defs)
  have b: "run PolicyA [Dispatch update_to_red] attached_shirts
       = Inr (attached_shirts\<lparr>dom := filterSlidesByVariant_A variant_red shirts\<rparr>)"
    using t by (simp add: dispatch_def handleVariantUpdate_def update_to_red_def attached_shirts_def)
  have c: "map display (containers (filterSlidesByVariant_A variant_red shirts)) = [ [], ''none'', [] ]"
    by (simp add: example_defs extract_defs string_defs filter_defs)
  have d: "run PolicyA [Dispatch JNull] attached_shirts = Inl TypeError"
    by (simp add: dispatch_def handleVariantUpdate_def attached_shirts_def)
  have "\<exists>c'. run PolicyA [Dispatch update_to_red, Dispatch JNull] (disconnectedCallback attached_shirts) = Inr c'
        \<and> run PolicyA (filter (\<lambda>ev. \<not> is_Dispatch ev) [Dispatch update_to_red, Dispatch JNull])
            (disconnectedCallback attached_shirts) = Inr c'"
    by (rule detached_dispatch_never_handled)
  then have e: "run PolicyA [Dispatch update_to_red, Dispatch JNull] (disconnectedCallback attached_shirts)
       = Inr (disconnectedCallback attached_shirts)"
    by auto
  show ?thesis using a b c d e by simp
qed

section \<open>Where Policy B leaves the specification\<close>

lemma containers_without_image_untouched:
  assumes "i < length (containers g)" and "img (containers g ! i) = None"
  shows "containers (filterSlidesByVariant_A res g) ! i = containers g ! i
         \<and> containers (filterPass_B res g) ! i = containers g ! i"
  using assms
  by (simp add: filterSlidesByVariant_A_def filterPass_B_def Let_def
      filterContainer_A_without_image filterContainer_B_without_image)

text \<open>
  Claim C2 says that an element without an image keeps its visibility under either
  policy. The loops over the containers do skip such an element
  (\<open>containers_without_image_untouched\<close>); the loop of Policy B over the thumbnails does
  not. It gives a button without an image the empty alt text, which contains no
  non-empty colour, and hides it: in the gallery of shirts the third thumbnail has no
  image and is shown, and after a pass for the red variant it is hidden.
\<close>

theorem thumbnail_without_image_is_hidden:
  "img (thumbs shirts ! 2) = None
   \<and> display (thumbs shirts ! 2) = []
   \<and> display (thumbs (filterPass_B variant_red shirts) ! 2) = ''none''"
  by (simp add: example_defs extract_defs string_defs filter_defs)

text \<open>
  Claim C3 says that Policy B marks the first thumbnail whose alt text contains the
  active colour as selected and every other one as not selected. The source marks a
  thumbnail selected when it matches and its position in the whole list is 0
  (\<open>filterThumbs_B_selected\<close>), so when the first match comes later no thumbnail is
  selected: with the thumbnails blue shirt, red shirt and the colour \<open>red\<close>, the second
  thumbnail is the one shown, and all of them are marked \<open>false\<close>.
\<close>

theorem first_matching_thumbnail_not_selected:
  "map display (thumbs (filterPass_B variant_red shirts)) = [''none'', [], ''none'']
   \<and> map aria_selected (thumbs (filterPass_B variant_red shirts))
       = [Some ''false'', Some ''false'', Some ''false'']"
  by (simp add: example_defs extract_defs string_defs filter_defs)

end
